theory Spec2Isabelle
  imports Complex_Main
begin

section \<open>The pool engine of uni-sim (src/src/uniswap\_v3\_pool.py)\<close>

text \<open>
  A shallow embedding of the class \<open>UniswapV3Pool\<close>. The object is a record, and every
  method takes the pool and returns the pool it leaves behind, together with what the
  call returned or raised. Python's \<open>int\<close> is \<open>int\<close>. Python's \<open>float\<close> is
  \<open>real\<close>: the arithmetic of the price code is taken as exact, so rounding to 53 bits
  and overflow to infinity are outside the model. The two dictionaries are partial
  functions, which keeps an entry holding 0 apart from a missing entry.
\<close>

subsection \<open>Data\<close>

datatype error = ValueError | KeyError | ZeroDivisionError

datatype 'a outcome = Returned 'a | Raised error

record token =
  name :: string
  symbol :: string
  decimals :: nat

type_synonym owner = string

type_synonym position_key = "owner \<times> int \<times> int"

record pool =
  token0 :: token
  token1 :: token
  fee :: real
  tick_spacing :: int
  sqrt_price_x96 :: int
  liquidity :: int
  tick :: int
  positions :: "position_key \<rightharpoonup> int"
  ticks :: "int \<rightharpoonup> int"

subsection \<open>Price and tick conversion\<close>

text \<open>
  \<open>int(x)\<close> on a float truncates towards zero.
\<close>

definition py_int :: "real \<Rightarrow> int" where
  "py_int x = (if 0 \<le> x then \<lfloor>x\<rfloor> else \<lceil>x\<rceil>)"

text \<open>
  \<open>get_tick_at_sqrt_price\<close>, lines 25-35. \<open>math.log(x, b)\<close> is \<open>ln x / ln b\<close>, which is
  \<open>log b x\<close>. With a positive argument and the base \<open>sqrt 1.0001\<close> the logarithm raises
  nothing, so the \<open>except\<close> branch is never entered in exact arithmetic.
\<close>

definition get_tick_at_sqrt_price :: "int \<Rightarrow> int" where
  "get_tick_at_sqrt_price s =
     (let price_value = real_of_int s / 2 ^ 96
      in if price_value \<le> 0 then - 887272
         else \<lfloor>log (sqrt 1.0001) price_value\<rfloor>)"

text \<open>\<open>get_sqrt_price_at_tick\<close>, lines 37-40.\<close>

definition get_sqrt_price_at_tick :: "int \<Rightarrow> int" where
  "get_sqrt_price_at_tick t =
     (let t' = max (- 887272) (min t 887272)
      in py_int (1.0001 powr (real_of_int t' / 2) * 2 ^ 96))"

text \<open>\<open>__init__\<close>, lines 4-23.\<close>

definition init :: "token \<Rightarrow> token \<Rightarrow> real \<Rightarrow> int \<Rightarrow> int \<Rightarrow> pool" where
  "init t0 t1 f spacing initial_sqrt_price =
     \<lparr>token0 = t0, token1 = t1, fee = f, tick_spacing = spacing,
      sqrt_price_x96 = initial_sqrt_price, liquidity = 0,
      tick = get_tick_at_sqrt_price initial_sqrt_price,
      positions = Map.empty, ticks = Map.empty\<rparr>"

subsection \<open>The position ledger and the tick ledger\<close>

text \<open>
  \<open>add_position\<close>, lines 42-76. \<open>math.floor(a / b) * b\<close> on integers is \<open>a div b * b\<close>
  (both round towards minus infinity; the float quotient is exact enough for this below
  \<open>2\<^sup>5\<^sup>3\<close>, and ticks are below \<open>2\<^sup>2\<^sup>0\<close>), and raises \<open>ZeroDivisionError\<close> for a spacing of
  0, before anything is written. The two augmented assignments of lines 71-72 read keys
  that lines 66-69 have just made sure exist.
\<close>

definition add_position :: "pool \<Rightarrow> owner \<Rightarrow> int \<Rightarrow> int \<Rightarrow> int \<Rightarrow> unit outcome \<times> pool" where
  "add_position p ownr lower_tick upper_tick amount =
     (if tick_spacing p = 0 then (Raised ZeroDivisionError, p)
      else
        let lower = lower_tick div tick_spacing p * tick_spacing p;
            upper = upper_tick div tick_spacing p * tick_spacing p;
            position_key = (ownr, lower, upper);
            positions' = (case positions p position_key of
                            Some v \<Rightarrow> (positions p)(position_key \<mapsto> v + amount)
                          | None \<Rightarrow> (positions p)(position_key \<mapsto> amount));
            ticks1 = (if ticks p lower = None then (ticks p)(lower \<mapsto> 0) else ticks p);
            ticks2 = (if ticks1 upper = None then ticks1(upper \<mapsto> 0) else ticks1);
            ticks3 = ticks2(lower \<mapsto> the (ticks2 lower) + amount);
            ticks4 = ticks3(upper \<mapsto> the (ticks3 upper) - amount);
            liquidity' = (if lower \<le> tick p \<and> tick p < upper
                          then liquidity p + amount else liquidity p)
        in (Returned (),
            p\<lparr>positions := positions', ticks := ticks4, liquidity := liquidity'\<rparr>))"

text \<open>
  \<open>remove_position\<close>, lines 78-96. The \<open>ValueError\<close> of line 83 is raised before any
  write. \<open>self.ticks[k] -= amount\<close> reads the entry first and raises \<open>KeyError\<close> when it
  is missing; the writes made before that stay in the object.
\<close>

definition remove_position :: "pool \<Rightarrow> owner \<Rightarrow> int \<Rightarrow> int \<Rightarrow> int \<Rightarrow> unit outcome \<times> pool" where
  "remove_position p ownr lower_tick upper_tick amount =
     (let position_key = (ownr, lower_tick, upper_tick)
      in case positions p position_key of
           None \<Rightarrow> (Raised ValueError, p)
         | Some v \<Rightarrow>
             (if v < amount then (Raised ValueError, p)
              else
                let positions' = (if v - amount = 0 then (positions p)(position_key := None)
                                  else (positions p)(position_key \<mapsto> v - amount));
                    p1 = p\<lparr>positions := positions'\<rparr>
                in (case ticks p1 lower_tick of
                      None \<Rightarrow> (Raised KeyError, p1)
                    | Some dl \<Rightarrow>
                       (let ticks1 = (ticks p1)(lower_tick \<mapsto> dl - amount);
                            p2 = p1\<lparr>ticks := ticks1\<rparr>
                        in (case ticks p2 upper_tick of
                              None \<Rightarrow> (Raised KeyError, p2)
                            | Some du \<Rightarrow>
                               (let ticks2 = (ticks p2)(upper_tick \<mapsto> du + amount);
                                    p3 = p2\<lparr>ticks := ticks2\<rparr>
                                in (Returned (),
                                    if lower_tick \<le> tick p3 \<and> tick p3 < upper_tick
                                    then p3\<lparr>liquidity := liquidity p3 - amount\<rparr>
                                    else p3)))))))"

subsection \<open>The swap\<close>

text \<open>\<open>d.get(k, 0)\<close>: a missing entry reads as 0.\<close>

definition get0 :: "(int \<rightharpoonup> int) \<Rightarrow> int \<Rightarrow> int" where
  "get0 m k = (case m k of None \<Rightarrow> 0 | Some d \<Rightarrow> d)"

text \<open>\<open>cross_tick\<close>, lines 123-139.\<close>

definition cross_tick :: "pool \<Rightarrow> int \<Rightarrow> pool" where
  "cross_tick p t =
     (let net_liquidity_change = get0 (ticks p) t;
          l = (if tick p < t then liquidity p + net_liquidity_change
               else if net_liquidity_change > liquidity p then 0
               else liquidity p - net_liquidity_change)
      in p\<lparr>liquidity := max 0 l\<rparr>)"

text \<open>
  Lines 211-227 of \<open>swap_simple\<close>: the tick is recomputed from the stored sqrt price, and
  then the keys of the tick ledger are visited in sorted order (descending when
  \<open>zero_for_one\<close>), crossing those between the old and the new tick.
\<close>

definition update_tick :: "pool \<Rightarrow> bool \<Rightarrow> pool" where
  "update_tick p zero_for_one =
     (let old_tick = tick p;
          p' = p\<lparr>tick := get_tick_at_sqrt_price (sqrt_price_x96 p)\<rparr>
      in if old_tick \<noteq> tick p' then
           if zero_for_one then
             fold (\<lambda>t q. if old_tick \<ge> t \<and> t > tick q then cross_tick q t else q)
                  (rev (sorted_list_of_set (dom (ticks p')))) p'
           else
             fold (\<lambda>t q. if old_tick \<le> t \<and> t < tick q then cross_tick q t else q)
                  (sorted_list_of_set (dom (ticks p'))) p'
         else p')"

text \<open>
  Lines 159-168 of \<open>swap_simple\<close>: the starting price, raised to the floor of 0.05 when
  it is below 0.1, and the pool after the write of line 168. The argument of
  \<open>math.sqrt\<close> is at least 0.05 there, so the call raises nothing.
\<close>

definition starting_price :: "pool \<Rightarrow> real" where
  "starting_price p =
     (let price0 = (real_of_int (sqrt_price_x96 p) / 2 ^ 96) ^ 2
      in if price0 < 0.1 then max price0 0.05 else price0)"

definition clamp_low_price :: "pool \<Rightarrow> pool" where
  "clamp_low_price p =
     (if (real_of_int (sqrt_price_x96 p) / 2 ^ 96) ^ 2 < 0.1
      then p\<lparr>sqrt_price_x96 := py_int (sqrt (starting_price p) * 2 ^ 96)\<rparr>
      else p)"

text \<open>
  Lines 157 and 170-181 (line 198 in the other branch, with the same cap): the impact
  factor of an amount.
\<close>

definition impact_factor :: "pool \<Rightarrow> real \<Rightarrow> real" where
  "impact_factor p amount_specified =
     (let amount_in = amount_specified * (1 - fee p);
          effective_liquidity = max 1000000 (real_of_int (liquidity p) / 10 ^ 9)
      in min (amount_in / (effective_liquidity * 100)) 0.1)"

text \<open>
  \<open>swap_simple\<close>, lines 141-232. \<open>math.sqrt\<close> raises \<open>ValueError\<close> on a negative
  argument. The new price is at least 0.1 on line 193, so of the two calls only the one
  of line 208 can raise; the pool then keeps the write of line 168.
\<close>

definition swap_simple :: "pool \<Rightarrow> bool \<Rightarrow> real \<Rightarrow> (real \<times> real) outcome \<times> pool" where
  "swap_simple p zero_for_one amount_specified =
     (if amount_specified \<le> 0 \<or> liquidity p \<le> 0 then (Returned (0, 0), p)
      else
        let amount_in = amount_specified * (1 - fee p);
            p1 = clamp_low_price p
        in if zero_for_one then
             let new_price = max 0.1 (starting_price p * (1 - impact_factor p amount_specified));
                 avg_price = (starting_price p + new_price) / 2;
                 token1_out = amount_in * avg_price;
                 new_sqrt_price = py_int (sqrt new_price * 2 ^ 96);
                 p2 = p1\<lparr>sqrt_price_x96 := max 1 new_sqrt_price\<rparr>
             in (Returned (amount_specified, - real_of_int (py_int token1_out)),
                 update_tick p2 zero_for_one)
           else
             let new_price = starting_price p * (1 + impact_factor p amount_specified);
                 avg_price = (starting_price p + new_price) / 2;
                 token0_out = (if avg_price > 0 then amount_in / avg_price else 0)
             in if new_price < 0 then (Raised ValueError, p1)
                else
                  let new_sqrt_price = py_int (sqrt new_price * 2 ^ 96);
                      p2 = p1\<lparr>sqrt_price_x96 := new_sqrt_price\<rparr>
                  in (Returned (- real_of_int (py_int token0_out), amount_specified),
                      update_tick p2 zero_for_one))"

subsection \<open>Sequences of calls\<close>

text \<open>
  A caller that catches the exception of a failed call goes on with the pool as the call
  left it, which is what the agents of src/src/agent.py do.
\<close>

datatype pool_op =
    AddPosition owner int int int
  | RemovePosition owner int int int
  | Swap bool real

fun apply_op :: "pool \<Rightarrow> pool_op \<Rightarrow> pool" where
  "apply_op p (AddPosition ownr l u a) = snd (add_position p ownr l u a)"
| "apply_op p (RemovePosition ownr l u a) = snd (remove_position p ownr l u a)"
| "apply_op p (Swap zero_for_one a) = snd (swap_simple p zero_for_one a)"

definition run_ops :: "pool \<Rightarrow> pool_op list \<Rightarrow> pool" where
  "run_ops p ops = foldl apply_op p ops"


subsection \<open>Observations used in the properties\<close>

text \<open>The sum of the values of the tick ledger, \<open>sum(self.ticks.values())\<close>.\<close>

definition ticks_total :: "(int \<rightharpoonup> int) \<Rightarrow> int" where
  "ticks_total m = (\<Sum>t \<in> dom m. the (m t))"

text \<open>The descaled price, as line 161 computes it from the stored sqrt price.\<close>

definition descaled_price :: "pool \<Rightarrow> real" where
  "descaled_price p = (real_of_int (sqrt_price_x96 p) / 2 ^ 96) ^ 2"

text \<open>
  What the two ledgers have in common in every pool that the calls can build: the tick
  ledger is finite, holds both ticks of every stored position, and its values add up
  to 0.
\<close>

definition ledger_inv :: "pool \<Rightarrow> bool" where
  "ledger_inv p \<longleftrightarrow>
     finite (dom (ticks p)) \<and>
     (\<forall>ownr l u. positions p (ownr, l, u) \<noteq> None \<longrightarrow>
        ticks p l \<noteq> None \<and> ticks p u \<noteq> None) \<and>
     ticks_total (ticks p) = 0"

text \<open>Every stored position holds a positive liquidity.\<close>

definition positions_positive :: "pool \<Rightarrow> bool" where
  "positions_positive p \<longleftrightarrow> (\<forall>k v. positions p k = Some v \<longrightarrow> 0 < v)"

text \<open>Both ticks of every stored position are multiples of the tick spacing.\<close>

definition keys_aligned :: "pool \<Rightarrow> bool" where
  "keys_aligned p \<longleftrightarrow>
     (\<forall>ownr l u. positions p (ownr, l, u) \<noteq> None \<longrightarrow>
        l mod tick_spacing p = 0 \<and> u mod tick_spacing p = 0)"

text \<open>
  The amounts of the ledger calls of a sequence: non-negative everywhere, and the
  stricter reading in which an added amount is positive. A swap writes neither ledger,
  so its amount is left free.
\<close>

fun amount_nonneg :: "pool_op \<Rightarrow> bool" where
  "amount_nonneg (AddPosition ownr l u a) = (0 \<le> a)"
| "amount_nonneg (RemovePosition ownr l u a) = (0 \<le> a)"
| "amount_nonneg (Swap zero_for_one a) = True"

fun amount_proper :: "pool_op \<Rightarrow> bool" where
  "amount_proper (AddPosition ownr l u a) = (0 < a)"
| "amount_proper (RemovePosition ownr l u a) = (0 \<le> a)"
| "amount_proper (Swap zero_for_one a) = True"

text \<open>The tokens and the fee tier of src/src/run\_simulation.py, at a price of 1.\<close>

definition eth :: token where
  "eth = \<lparr>name = ''Ether'', symbol = ''ETH'', decimals = 18\<rparr>"

definition usdc :: token where
  "usdc = \<lparr>name = ''USD Coin'', symbol = ''USDC'', decimals = 6\<rparr>"

definition fresh_pool :: pool where
  "fresh_pool = init eth usdc 0.003 60 (2 ^ 96)"


definition crossing_pool :: pool where
  "crossing_pool = snd (add_position fresh_pool ''LP1'' (- 60) 60 5)"

section \<open>The ledgers\<close>

subsection \<open>What a swap leaves alone\<close>

lemma swap_state_cases:
  "snd (swap_simple p z a) = p \<or> snd (swap_simple p z a) = clamp_low_price p \<or>
   (\<exists>s. snd (swap_simple p z a) = update_tick ((clamp_low_price p)\<lparr>sqrt_price_x96 := s\<rparr>) z)"
  unfolding swap_simple_def Let_def
  by (simp; blast)

lemma cross_fold_ledgers:
  "positions (fold (\<lambda>t q. if P t q then cross_tick q t else q) ts q) = positions q \<and>
   ticks (fold (\<lambda>t q. if P t q then cross_tick q t else q) ts q) = ticks q \<and>
   tick_spacing (fold (\<lambda>t q. if P t q then cross_tick q t else q) ts q) = tick_spacing q"
  by (induction ts arbitrary: q) (auto simp: cross_tick_def Let_def)

lemma update_tick_ledgers:
  "positions (update_tick p z) = positions p \<and> ticks (update_tick p z) = ticks p \<and>
   tick_spacing (update_tick p z) = tick_spacing p"
  unfolding update_tick_def Let_def
  by (simp add: cross_fold_ledgers)

lemma clamp_low_price_ledgers:
  "positions (clamp_low_price p) = positions p \<and> ticks (clamp_low_price p) = ticks p \<and>
   tick_spacing (clamp_low_price p) = tick_spacing p"
  by (simp add: clamp_low_price_def)

lemma swap_ledgers:
  "positions (snd (swap_simple p z a)) = positions p \<and>
   ticks (snd (swap_simple p z a)) = ticks p \<and>
   tick_spacing (snd (swap_simple p z a)) = tick_spacing p"
  using swap_state_cases[of p z a]
  by (auto simp: update_tick_ledgers clamp_low_price_ledgers)

lemma ledger_inv_swap: "ledger_inv p \<Longrightarrow> ledger_inv (snd (swap_simple p z a))"
  by (simp add: ledger_inv_def swap_ledgers)

lemma positions_positive_swap:
  "positions_positive p \<Longrightarrow> positions_positive (snd (swap_simple p z a))"
  by (simp add: positions_positive_def swap_ledgers)

lemma keys_aligned_swap: "keys_aligned p \<Longrightarrow> keys_aligned (snd (swap_simple p z a))"
  by (simp add: keys_aligned_def swap_ledgers)

subsection \<open>The sum of the tick ledger\<close>

lemma ticks_total_upd:
  assumes "finite (dom m)"
  shows "ticks_total (m(k \<mapsto> v)) = ticks_total m - get0 m k + v"
proof -
  have d: "dom (m(k \<mapsto> v)) = insert k (dom m - {k})" by auto
  have f: "finite (dom m - {k})" using assms by simp
  have "(\<Sum>t \<in> dom m - {k}. the ((m(k \<mapsto> v)) t)) = (\<Sum>t \<in> dom m - {k}. the (m t))"
    by (rule sum.cong) auto
  moreover have "ticks_total (m(k \<mapsto> v)) = (\<Sum>t \<in> insert k (dom m - {k}). the ((m(k \<mapsto> v)) t))"
    by (simp only: ticks_total_def d)
  moreover have "(\<Sum>t \<in> insert k (dom m - {k}). the ((m(k \<mapsto> v)) t)) =
      the ((m(k \<mapsto> v)) k) + (\<Sum>t \<in> dom m - {k}. the ((m(k \<mapsto> v)) t))"
    using f by (intro sum.insert) auto
  ultimately have s1: "ticks_total (m(k \<mapsto> v)) = v + (\<Sum>t \<in> dom m - {k}. the (m t))"
    by simp
  have s2: "ticks_total m = get0 m k + (\<Sum>t \<in> dom m - {k}. the (m t))"
  proof (cases "m k")
    case None
    then have "dom m - {k} = dom m" by auto
    with None show ?thesis by (simp add: ticks_total_def get0_def)
  next
    case (Some x)
    then have "k \<in> dom m" by auto
    from sum.remove[OF assms this, of "\<lambda>t. the (m t)"] Some
    show ?thesis by (simp add: ticks_total_def get0_def)
  qed
  show ?thesis using s1 s2 by simp
qed

subsection \<open>What a call of \<open>add_position\<close> writes\<close>

lemma add_position_zero_spacing:
  "tick_spacing p = 0 \<Longrightarrow> add_position p ownr l u a = (Raised ZeroDivisionError, p)"
  by (simp add: add_position_def)

lemma add_position_ticks:
  "tick_spacing p \<noteq> 0 \<Longrightarrow>
   ticks (snd (add_position p ownr l u a)) =
     (let lo = l div tick_spacing p * tick_spacing p; up = u div tick_spacing p * tick_spacing p
      in if lo = up then (ticks p)(lo \<mapsto> get0 (ticks p) lo)
         else (ticks p)(lo \<mapsto> get0 (ticks p) lo + a, up \<mapsto> get0 (ticks p) up - a))"
  by (auto simp: add_position_def Let_def get0_def fun_eq_iff split: option.splits)

lemma add_position_positions:
  "tick_spacing p \<noteq> 0 \<Longrightarrow>
   positions (snd (add_position p ownr l u a)) =
     (let k = (ownr, l div tick_spacing p * tick_spacing p, u div tick_spacing p * tick_spacing p)
      in (positions p)(k \<mapsto> (case positions p k of None \<Rightarrow> a | Some v \<Rightarrow> v + a)))"
  by (auto simp: add_position_def Let_def split: option.splits)

lemma add_position_positions_dom:
  "tick_spacing p \<noteq> 0 \<Longrightarrow>
   (positions (snd (add_position p ownr l u a)) k \<noteq> None) =
     (k = (ownr, l div tick_spacing p * tick_spacing p, u div tick_spacing p * tick_spacing p)
      \<or> positions p k \<noteq> None)"
  by (auto simp: add_position_positions Let_def)


lemma add_position_rest:
  "tick (snd (add_position p ownr l u a)) = tick p \<and>
   tick_spacing (snd (add_position p ownr l u a)) = tick_spacing p \<and>
   sqrt_price_x96 (snd (add_position p ownr l u a)) = sqrt_price_x96 p \<and>
   fee (snd (add_position p ownr l u a)) = fee p"
  by (simp add: add_position_def Let_def)

subsection \<open>What a call of \<open>remove_position\<close> writes\<close>

lemma remove_position_ok:
  assumes "positions p (ownr, l, u) = Some v" "\<not> v < a" "ticks p l = Some dl" "ticks p u = Some du"
  shows "remove_position p ownr l u a =
     (Returned (),
      p\<lparr>positions := (if v - a = 0 then (positions p)((ownr, l, u) := None)
                        else (positions p)((ownr, l, u) \<mapsto> v - a)),
        ticks := (ticks p)(l \<mapsto> dl - a, u \<mapsto> (if u = l then dl - a else du) + a),
        liquidity := (if l \<le> tick p \<and> tick p < u then liquidity p - a else liquidity p)\<rparr>)"
  using assms by (simp add: remove_position_def Let_def)

lemma remove_position_raises:
  "positions p (ownr, l, u) = None \<or> (\<exists>v. positions p (ownr, l, u) = Some v \<and> v < a) \<Longrightarrow>
   remove_position p ownr l u a = (Raised ValueError, p)"
  by (auto simp: remove_position_def Let_def)

lemma remove_position_rest:
  "tick (snd (remove_position p ownr l u a)) = tick p \<and>
   tick_spacing (snd (remove_position p ownr l u a)) = tick_spacing p"
  by (simp add: remove_position_def Let_def split: option.splits)

subsection \<open>The invariant of the ledgers\<close>

lemma ledger_inv_add:
  assumes "ledger_inv p"
  shows "ledger_inv (snd (add_position p ownr l u a))"
proof (cases "tick_spacing p = 0")
  case True
  then show ?thesis using assms by (simp add: add_position_zero_spacing)
next
  case False
  define lo where "lo = l div tick_spacing p * tick_spacing p"
  define up where "up = u div tick_spacing p * tick_spacing p"
  let ?p' = "snd (add_position p ownr l u a)"
  have fin: "finite (dom (ticks p))" and tot: "ticks_total (ticks p) = 0"
    and keys: "\<And>ow x y. positions p (ow, x, y) \<noteq> None \<Longrightarrow> ticks p x \<noteq> None \<and> ticks p y \<noteq> None"
    using assms by (auto simp: ledger_inv_def)
  have tk: "ticks ?p' = (if lo = up then (ticks p)(lo \<mapsto> get0 (ticks p) lo)
         else (ticks p)(lo \<mapsto> get0 (ticks p) lo + a, up \<mapsto> get0 (ticks p) up - a))"
    using add_position_ticks[OF False, of ownr l u a] by (simp add: Let_def lo_def up_def)
  have pd: "\<And>k. (positions ?p' k \<noteq> None) = (k = (ownr, lo, up) \<or> positions p k \<noteq> None)"
    using add_position_positions_dom[OF False, of ownr l u a] by (simp add: lo_def up_def)
  have f': "finite (dom (ticks ?p'))" using fin by (simp add: tk)
  have dsub: "dom (ticks p) \<subseteq> dom (ticks ?p')"
    and lo_in: "lo \<in> dom (ticks ?p')" and up_in: "up \<in> dom (ticks ?p')"
    by (auto simp: tk)
  have k': "\<And>ow x y. positions ?p' (ow, x, y) \<noteq> None \<Longrightarrow> ticks ?p' x \<noteq> None \<and> ticks ?p' y \<noteq> None"
  proof -
    fix ow x y assume "positions ?p' (ow, x, y) \<noteq> None"
    then have "(ow, x, y) = (ownr, lo, up) \<or> positions p (ow, x, y) \<noteq> None"
      by (simp only: pd)
    then consider "x = lo \<and> y = up" | "positions p (ow, x, y) \<noteq> None" by auto
    then show "ticks ?p' x \<noteq> None \<and> ticks ?p' y \<noteq> None"
    proof cases
      case 1 then show ?thesis using lo_in up_in by auto
    next
      case 2 then show ?thesis using keys[OF 2] dsub by auto
    qed
  qed
  have t': "ticks_total (ticks ?p') = 0"
  proof (cases "lo = up")
    case True
    then show ?thesis using tot by (simp add: tk ticks_total_upd[OF fin])
  next
    case False
    have f1: "finite (dom ((ticks p)(lo \<mapsto> get0 (ticks p) lo + a)))" using fin by simp
    have "get0 ((ticks p)(lo \<mapsto> get0 (ticks p) lo + a)) up = get0 (ticks p) up"
      using False by (simp add: get0_def)
    then show ?thesis using False tot
      by (simp add: tk ticks_total_upd[OF f1] ticks_total_upd[OF fin])
  qed
  show ?thesis unfolding ledger_inv_def using f' k' t' by blast
qed

lemma ledger_inv_remove:
  assumes "ledger_inv p"
  shows "ledger_inv (snd (remove_position p ownr l u a))"
proof (cases "positions p (ownr, l, u)")
  case None
  then show ?thesis using assms by (simp add: remove_position_raises)
next
  case (Some v)
  show ?thesis
  proof (cases "v < a")
    case True
    then show ?thesis using assms Some by (simp add: remove_position_raises)
  next
    case False
    have fin: "finite (dom (ticks p))" and tot: "ticks_total (ticks p) = 0"
      and keys: "\<And>ow x y. positions p (ow, x, y) \<noteq> None \<Longrightarrow> ticks p x \<noteq> None \<and> ticks p y \<noteq> None"
      using assms by (auto simp: ledger_inv_def)
    from keys[of ownr l u] Some obtain dl du where dl: "ticks p l = Some dl" and du: "ticks p u = Some du"
      by auto
    note r = remove_position_ok[OF Some False dl du]
    let ?p' = "snd (remove_position p ownr l u a)"
    have tk: "ticks ?p' = (ticks p)(l \<mapsto> dl - a, u \<mapsto> (if u = l then dl - a else du) + a)"
      by (simp add: r)
    have ps: "\<And>k. positions ?p' k \<noteq> None \<Longrightarrow> positions p k \<noteq> None"
      using Some by (auto simp: r split: if_splits)
    have f': "finite (dom (ticks ?p'))" using fin by (simp add: tk)
    have k': "\<And>ow x y. positions ?p' (ow, x, y) \<noteq> None \<Longrightarrow> ticks ?p' x \<noteq> None \<and> ticks ?p' y \<noteq> None"
    proof -
      fix ow x y assume "positions ?p' (ow, x, y) \<noteq> None"
      then have "positions p (ow, x, y) \<noteq> None" by (rule ps)
      then have "ticks p x \<noteq> None \<and> ticks p y \<noteq> None" by (rule keys)
      then show "ticks ?p' x \<noteq> None \<and> ticks ?p' y \<noteq> None" by (simp add: tk)
    qed
    have f1: "finite (dom ((ticks p)(l \<mapsto> dl - a)))" using fin by simp
    have t': "ticks_total (ticks ?p') = 0"
      using tot dl du by (auto simp: tk ticks_total_upd[OF f1] ticks_total_upd[OF fin] get0_def)
    show ?thesis unfolding ledger_inv_def using f' k' t' by blast
  qed
qed

lemma ledger_inv_init: "ledger_inv (init t0 t1 f sp s)"
  by (simp add: ledger_inv_def init_def ticks_total_def)

lemma ledger_inv_run: "ledger_inv p \<Longrightarrow> ledger_inv (run_ops p ops)"
  unfolding run_ops_def
proof (induction ops arbitrary: p)
  case Nil
  then show ?case by simp
next
  case (Cons x xs)
  have "ledger_inv (apply_op p x)"
    using Cons.prems
    by (cases x) (simp_all add: ledger_inv_add ledger_inv_remove ledger_inv_swap)
  then show ?case using Cons.IH by simp
qed

text \<open>
  C2. Starting from a fresh pool, after any sequence of \<open>add_position\<close> and
  \<open>remove_position\<close> calls (failed calls included, the caller going on after the
  exception; swaps may come in between), the net deltas stored in the tick ledger add up
  to exactly 0. Every prefix of a sequence is a sequence, so this holds after every
  single operation.
\<close>

theorem zero_sum_ledger:
  "ticks_total (ticks (run_ops (init t0 t1 f sp s) ops)) = 0"
  using ledger_inv_run[OF ledger_inv_init, of t0 t1 f sp s ops] by (simp add: ledger_inv_def)

text \<open>
  C7. \<open>remove_position\<close> raises the \<open>ValueError\<close> of line 83 exactly when the key is not
  in the position ledger or its liquidity is below the amount, and the pool it leaves
  behind is then the pool it was given: both ledgers, the liquidity and everything else.
\<close>

theorem remove_position_invalid:
  "(fst (remove_position p ownr l u a) = Raised ValueError \<longleftrightarrow>
      (positions p (ownr, l, u) = None \<or> (\<exists>v. positions p (ownr, l, u) = Some v \<and> v < a)))
   \<and> (fst (remove_position p ownr l u a) = Raised ValueError \<longrightarrow>
        snd (remove_position p ownr l u a) = p)"
  by (auto simp: remove_position_def Let_def split: option.splits)

theorem remove_position_invalid_witness:
  "positions fresh_pool (''LP1'', 0, 60) = None \<and>
   fst (remove_position fresh_pool ''LP1'' 0 60 5) = Raised ValueError \<and>
   snd (remove_position fresh_pool ''LP1'' 0 60 5) = fresh_pool"
proof -
  have n: "positions fresh_pool (''LP1'', 0, 60) = None"
    by (simp add: fresh_pool_def init_def)
  from remove_position_invalid[of fresh_pool "''LP1''" 0 60 5] n
  show ?thesis by simp
qed

subsection \<open>Zero entries of the position ledger\<close>

lemma remove_position_positions:
  "positions (snd (remove_position p ownr l u a)) = positions p \<or>
   (\<exists>v. positions p (ownr, l, u) = Some v \<and> \<not> v < a \<and>
        positions (snd (remove_position p ownr l u a)) =
          (if v - a = 0 then (positions p)((ownr, l, u) := None)
           else (positions p)((ownr, l, u) \<mapsto> v - a)))"
  by (auto simp: remove_position_def Let_def split: option.splits)

lemma positions_positive_add:
  assumes "positions_positive p" "0 < a"
  shows "positions_positive (snd (add_position p ownr l u a))"
proof (cases "tick_spacing p = 0")
  case True
  then show ?thesis using assms by (simp add: add_position_zero_spacing)
next
  case False
  define key where "key = (ownr, l div tick_spacing p * tick_spacing p, u div tick_spacing p * tick_spacing p)"
  have eq: "positions (snd (add_position p ownr l u a)) =
      (positions p)(key \<mapsto> (case positions p key of None \<Rightarrow> a | Some v \<Rightarrow> v + a))"
    using add_position_positions[OF False, of ownr l u a] by (simp add: Let_def key_def)
  have old: "\<And>k v. positions p k = Some v \<Longrightarrow> 0 < v"
    using assms(1) unfolding positions_positive_def by blast
  have "0 < (case positions p key of None \<Rightarrow> a | Some v \<Rightarrow> v + a)"
    using assms(2) old[of key] by (cases "positions p key") auto
  then have "\<And>k v. positions (snd (add_position p ownr l u a)) k = Some v \<Longrightarrow> 0 < v"
    using old unfolding eq by (auto split: if_splits)
  then show ?thesis unfolding positions_positive_def by blast
qed

lemma positions_positive_remove:
  assumes "positions_positive p" "0 \<le> a"
  shows "positions_positive (snd (remove_position p ownr l u a))"
proof -
  have old: "\<And>k v. positions p k = Some v \<Longrightarrow> 0 < v"
    using assms(1) unfolding positions_positive_def by blast
  have "\<And>k w. positions (snd (remove_position p ownr l u a)) k = Some w \<Longrightarrow> 0 < w"
  proof -
    fix k w
    assume kw: "positions (snd (remove_position p ownr l u a)) k = Some w"
    from remove_position_positions[of p ownr l u a] show "0 < w"
    proof (elim disjE exE conjE)
      assume "positions (snd (remove_position p ownr l u a)) = positions p"
      then show ?thesis using kw old by simp
    next
      fix v
      assume v: "positions p (ownr, l, u) = Some v" "\<not> v < a"
        and eq: "positions (snd (remove_position p ownr l u a)) =
              (if v - a = 0 then (positions p)((ownr, l, u) := None)
               else (positions p)((ownr, l, u) \<mapsto> v - a))"
      show ?thesis
      proof (cases "k = (ownr, l, u)")
        case True
        then show ?thesis using kw v unfolding eq by (auto split: if_splits)
      next
        case False
        then have "positions p k = Some w" using kw unfolding eq by (auto split: if_splits)
        then show ?thesis by (rule old)
      qed
    qed
  qed
  then show ?thesis unfolding positions_positive_def by blast
qed

lemma positions_positive_run:
  "positions_positive p \<Longrightarrow> \<forall>x \<in> set ops. amount_proper x \<Longrightarrow> positions_positive (run_ops p ops)"
  unfolding run_ops_def
proof (induction ops arbitrary: p)
  case Nil
  then show ?case by simp
next
  case (Cons x xs)
  have "positions_positive (apply_op p x)"
    using Cons.prems
    by (cases x)
       (simp_all add: positions_positive_add positions_positive_remove positions_positive_swap)
  then show ?case using Cons by simp
qed

text \<open>
  C9, as stated, fails: the amounts of the claim may be 0, and \<open>add_position\<close> with the
  amount 0 on a new key stores an entry holding 0 (line 63 checks nothing).
\<close>

theorem zero_position_counterexample:
  "amount_nonneg (AddPosition ''LP1'' 0 60 0) \<and>
   positions (run_ops fresh_pool [AddPosition ''LP1'' 0 60 0]) (''LP1'', 0, 60) = Some 0"
  by (simp add: run_ops_def fresh_pool_def init_def add_position_def Let_def)

text \<open>
  C9, amended. When every added amount is positive and every removed amount is
  non-negative, each entry of the position ledger holds a positive liquidity after any
  sequence of calls on a fresh pool; in particular none holds 0.
\<close>

theorem no_zero_position:
  "\<forall>x \<in> set ops. amount_proper x \<Longrightarrow>
   positions (run_ops (init t0 t1 f sp s) ops) k = Some v \<Longrightarrow> 0 < v"
proof -
  assume a: "\<forall>x \<in> set ops. amount_proper x"
    and k: "positions (run_ops (init t0 t1 f sp s) ops) k = Some v"
  have "positions_positive (init t0 t1 f sp s)"
    by (simp add: positions_positive_def init_def)
  from positions_positive_run[OF this a] k show "0 < v"
    unfolding positions_positive_def by blast
qed

theorem no_zero_position_witness:
  "amount_proper (AddPosition ''LP1'' 0 60 5) \<and> amount_proper (RemovePosition ''LP1'' 0 60 2) \<and>
   positions (run_ops fresh_pool [AddPosition ''LP1'' 0 60 5, RemovePosition ''LP1'' 0 60 2])
     (''LP1'', 0, 60) = Some 3 \<and> (0::int) < 3"
proof -
  have a: "\<forall>x \<in> set [AddPosition ''LP1'' 0 60 5, RemovePosition ''LP1'' 0 60 2]. amount_proper x"
    by simp
  have k: "positions (run_ops (init eth usdc 0.003 60 (2 ^ 96))
             [AddPosition ''LP1'' 0 60 5, RemovePosition ''LP1'' 0 60 2]) (''LP1'', 0, 60) = Some 3"
    by (simp add: run_ops_def init_def add_position_def remove_position_def Let_def)
  from no_zero_position[OF a k] k show ?thesis
    by (simp add: fresh_pool_def)
qed

subsection \<open>Unaligned ticks\<close>

lemma aligned_floor: "sp \<noteq> 0 \<Longrightarrow> (x div sp * sp) mod sp = (0::int)"
  by simp

lemma keys_aligned_add:
  assumes "keys_aligned p"
  shows "keys_aligned (snd (add_position p ownr l u a))"
proof (cases "tick_spacing p = 0")
  case True
  then show ?thesis using assms by (simp add: add_position_zero_spacing)
next
  case False
  show ?thesis
    unfolding keys_aligned_def
  proof (intro allI impI)
    fix ow x y
    assume "positions (snd (add_position p ownr l u a)) (ow, x, y) \<noteq> None"
    then have "(ow, x, y) = (ownr, l div tick_spacing p * tick_spacing p, u div tick_spacing p * tick_spacing p)
        \<or> positions p (ow, x, y) \<noteq> None"
      by (simp only: add_position_positions_dom[OF False])
    then show "x mod tick_spacing (snd (add_position p ownr l u a)) = 0 \<and>
               y mod tick_spacing (snd (add_position p ownr l u a)) = 0"
      using assms by (auto simp: add_position_rest keys_aligned_def)
  qed
qed

lemma remove_position_positions_sub:
  "positions (snd (remove_position p ownr l u a)) k \<noteq> None \<Longrightarrow> positions p k \<noteq> None"
  using remove_position_positions[of p ownr l u a]
  by (auto split: if_splits)

lemma keys_aligned_remove:
  assumes "keys_aligned p"
  shows "keys_aligned (snd (remove_position p ownr l u a))"
  unfolding keys_aligned_def
proof (intro allI impI)
  fix ow x y
  assume "positions (snd (remove_position p ownr l u a)) (ow, x, y) \<noteq> None"
  then have "positions p (ow, x, y) \<noteq> None" by (rule remove_position_positions_sub)
  then show "x mod tick_spacing (snd (remove_position p ownr l u a)) = 0 \<and>
             y mod tick_spacing (snd (remove_position p ownr l u a)) = 0"
    using assms by (simp add: remove_position_rest keys_aligned_def)
qed

lemma run_ops_invariants:
  "keys_aligned p \<Longrightarrow>
   keys_aligned (run_ops p ops) \<and> tick_spacing (run_ops p ops) = tick_spacing p"
  unfolding run_ops_def
proof (induction ops arbitrary: p)
  case Nil
  then show ?case by simp
next
  case (Cons x xs)
  have "keys_aligned (apply_op p x) \<and> tick_spacing (apply_op p x) = tick_spacing p"
    using Cons.prems
    by (cases x)
       (simp_all add: keys_aligned_add keys_aligned_remove keys_aligned_swap
          add_position_rest remove_position_rest swap_ledgers)
  then show ?case using Cons.IH[of "apply_op p x"] by simp
qed

lemma reachable_aligned:
  "keys_aligned (run_ops (init t0 t1 f sp s) ops) \<and>
   tick_spacing (run_ops (init t0 t1 f sp s) ops) = sp"
proof -
  have "keys_aligned (init t0 t1 f sp s)" by (simp add: keys_aligned_def init_def)
  from run_ops_invariants[OF this, of ops] show ?thesis by (simp add: init_def)
qed

text \<open>
  C10. In a pool built from a fresh one by any sequence of calls (additions, removals
  and swaps), with a tick spacing other than 0: when one of the two ticks is not a multiple of the spacing,
  \<open>add_position\<close> stores the position under the aligned key, and \<open>remove_position\<close> with
  the same unaligned ticks raises the \<open>ValueError\<close> of line 83 and removes nothing.
\<close>

theorem unaligned_remove_fails:
  assumes "sp \<noteq> 0" and "l mod sp \<noteq> 0 \<or> u mod sp \<noteq> 0"
  shows "remove_position (snd (add_position (run_ops (init t0 t1 f sp s) ops) ownr l u a)) ownr l u a =
           (Raised ValueError, snd (add_position (run_ops (init t0 t1 f sp s) ops) ownr l u a))
         \<and> positions (snd (add_position (run_ops (init t0 t1 f sp s) ops) ownr l u a))
             (ownr, l div sp * sp, u div sp * sp) \<noteq> None"
proof -
  let ?p = "run_ops (init t0 t1 f sp s) ops"
  let ?p' = "snd (add_position ?p ownr l u a)"
  have sp: "tick_spacing ?p = sp" and al: "keys_aligned ?p"
    using reachable_aligned[of t0 t1 f sp s ops] by simp_all
  have nz: "tick_spacing ?p \<noteq> 0" using assms(1) sp by simp
  have ka: "keys_aligned ?p'" by (rule keys_aligned_add[OF al])
  have sp': "tick_spacing ?p' = sp" by (simp add: add_position_rest sp)
  have "positions ?p' (ownr, l, u) = None"
  proof (rule ccontr)
    assume "positions ?p' (ownr, l, u) \<noteq> None"
    with ka have "l mod tick_spacing ?p' = 0 \<and> u mod tick_spacing ?p' = 0"
      unfolding keys_aligned_def by blast
    with assms(2) show False by (simp add: sp')
  qed
  then have "remove_position ?p' ownr l u a = (Raised ValueError, ?p')"
    by (simp add: remove_position_raises)
  moreover have "positions ?p' (ownr, l div sp * sp, u div sp * sp) \<noteq> None"
    using add_position_positions_dom[OF nz, of ownr l u a] by (simp add: sp)
  ultimately show ?thesis by simp
qed

theorem unaligned_remove_fails_witness:
  "(60::int) \<noteq> 0 \<and> (5::int) mod 60 = 5 \<and> (65::int) mod 60 = 5 \<and>
   fst (remove_position (snd (add_position (run_ops (init eth usdc 0.003 60 (2 ^ 96)) []) ''LP1'' 5 65 10))
          ''LP1'' 5 65 10) = Raised ValueError \<and>
   positions (snd (add_position (run_ops (init eth usdc 0.003 60 (2 ^ 96)) []) ''LP1'' 5 65 10))
     (''LP1'', 0, 60) \<noteq> None"
proof -
  have h1: "(60::int) \<noteq> 0" by simp
  have h2: "(5::int) mod 60 \<noteq> 0 \<or> (65::int) mod 60 \<noteq> 0" by simp
  from unaligned_remove_fails[OF h1 h2, of eth usdc "0.003" "2 ^ 96" "[]" "''LP1''" 10] h1 h2
  show ?thesis by simp
qed

subsection \<open>Adding and then removing\<close>




section \<open>The swap\<close>

subsection \<open>Liquidity through a swap\<close>









text \<open>
  C6. A swap of an amount that is not positive, and a swap of any amount on a pool whose
  active liquidity is not positive, returns \<open>(0, 0)\<close>, raises nothing and leaves the
  pool as it was: the sqrt price, the tick, the liquidity and everything else.
\<close>

theorem swap_noop:
  "amount_specified \<le> 0 \<or> liquidity p \<le> 0 \<Longrightarrow>
   swap_simple p zero_for_one amount_specified = (Returned (0, 0), p)"
  by (simp add: swap_simple_def)

theorem swap_noop_witness:
  "((5::real) \<le> 0 \<or> liquidity fresh_pool \<le> 0) \<and>
   swap_simple fresh_pool True 5 = (Returned (0, 0), fresh_pool)"
proof -
  have h: "(5::real) \<le> 0 \<or> liquidity fresh_pool \<le> 0" by (simp add: fresh_pool_def init_def)
  from swap_noop[OF h, of True] h show ?thesis by simp
qed

section \<open>Prices and ticks\<close>

subsection \<open>The tick of a positive sqrt price\<close>

lemma tick_base_gt_one: "1 < sqrt (1.0001::real)"
  by simp

lemma tick_base_powr: "sqrt (1.0001::real) powr x = 1.0001 powr (x / 2)"
  by (simp add: powr_half_sqrt[symmetric] powr_powr)

lemma get_tick_positive:
  "0 < s \<Longrightarrow> get_tick_at_sqrt_price s = \<lfloor>log (sqrt 1.0001) (real_of_int s / 2 ^ 96)\<rfloor>"
  by (simp add: get_tick_at_sqrt_price_def Let_def not_le)

lemma le_get_tick_iff:
  assumes "0 < s"
  shows "k \<le> get_tick_at_sqrt_price s \<longleftrightarrow> 1.0001 powr (real_of_int k / 2) \<le> real_of_int s / 2 ^ 96"
proof -
  have x: "0 < real_of_int s / 2 ^ 96" using assms by simp
  have "k \<le> get_tick_at_sqrt_price s \<longleftrightarrow> real_of_int k \<le> log (sqrt 1.0001) (real_of_int s / 2 ^ 96)"
    by (simp add: get_tick_positive[OF assms] le_floor_iff)
  also have "\<dots> \<longleftrightarrow> sqrt 1.0001 powr real_of_int k \<le> real_of_int s / 2 ^ 96"
    using le_log_iff[OF tick_base_gt_one x] by simp
  finally show ?thesis by (simp only: tick_base_powr)
qed

lemma get_tick_less_iff:
  assumes "0 < s"
  shows "get_tick_at_sqrt_price s < k \<longleftrightarrow> real_of_int s / 2 ^ 96 < 1.0001 powr (real_of_int k / 2)"
  using le_get_tick_iff[OF assms, of k] by auto

lemma get_tick_one: "get_tick_at_sqrt_price (2 ^ 96) = 0"
  by (simp add: get_tick_at_sqrt_price_def)

subsection \<open>The sqrt price of a tick in range\<close>

lemma pow_bound: "(1.0001::real) powr 443636 \<le> 3 ^ 45"
proof -
  have "(1.0001::real) \<le> exp (1 / 10000)"
    using exp_ge_add_one_self[of "1 / 10000"] by simp
  then have "(1.0001::real) powr 443636 \<le> exp (1 / 10000) powr 443636"
    by (intro powr_mono2) simp_all
  also have "\<dots> = exp (443636 / 10000)"
    by (simp add: powr_def)
  also have "\<dots> \<le> exp (real 45 * 1)"
    by (simp del: of_nat_numeral)
  also have "\<dots> = exp 1 ^ 45"
    by (rule exp_of_nat_mult)
  also have "\<dots> \<le> 3 ^ 45"
    by (intro power_mono exp_le) simp
  finally show ?thesis .
qed

lemma sqrt_price_lower:
  assumes "- 887272 \<le> t"
  shows "2 ^ 96 / 3 ^ 45 \<le> 1.0001 powr (real_of_int t / 2) * 2 ^ 96"
proof -
  have "real_of_int t / 2 \<ge> - 443636" using assms by simp
  then have "(1.0001::real) powr (- 443636) \<le> 1.0001 powr (real_of_int t / 2)"
    by (intro powr_mono) simp_all
  moreover have "(1.0001::real) powr (- 443636) = 1 / 1.0001 powr 443636"
    by (simp add: powr_minus_divide)
  moreover have "1 / 3 ^ 45 \<le> 1 / (1.0001::real) powr 443636"
    using pow_bound by (intro divide_left_mono) simp_all
  ultimately have "1 / 3 ^ 45 \<le> (1.0001::real) powr (real_of_int t / 2)" by linarith
  then have "1 / 3 ^ 45 * 2 ^ 96 \<le> (1.0001::real) powr (real_of_int t / 2) * 2 ^ 96"
    by (intro mult_right_mono) simp_all
  then show ?thesis by simp
qed

lemma tick_step: "(1.0001::real) powr (- 1 / 2) \<le> 1 - 1 / 30000"
proof -
  have a: "(1.0001::real) powr (- 1 / 2) = 1 / sqrt 1.0001"
    by (simp add: powr_minus_divide powr_half_sqrt)
  have "(1.00004::real) \<le> sqrt 1.0001"
    by (rule real_le_rsqrt) (simp add: power2_eq_square)
  then have "1 / sqrt 1.0001 \<le> 1 / (1.00004::real)"
    by (intro divide_left_mono) simp_all
  also have "\<dots> \<le> 1 - 1 / 30000" by simp
  finally show ?thesis using a by simp
qed

lemma round_trip_bounds:
  assumes "- 887272 \<le> t" "t \<le> 887272"
  shows "t - 1 \<le> get_tick_at_sqrt_price (get_sqrt_price_at_tick t)"
    and "get_tick_at_sqrt_price (get_sqrt_price_at_tick t) \<le> t"
proof -
  define x :: real where "x = 1.0001 powr (real_of_int t / 2) * 2 ^ 96"
  define s where "s = get_sqrt_price_at_tick t"
  have big: "(30000::real) \<le> x"
  proof -
    have "(30000::real) \<le> 2 ^ 96 / 3 ^ 45" by simp
    then show ?thesis using sqrt_price_lower[OF assms(1)] unfolding x_def by linarith
  qed
  have s: "s = \<lfloor>x\<rfloor>"
    using big assms by (simp add: s_def get_sqrt_price_at_tick_def Let_def py_int_def x_def)
  have s_le: "real_of_int s \<le> x" and s_gt: "x - 1 < real_of_int s"
    unfolding s by linarith+
  have pos: "0 < s" using s_gt big by linarith
  have "1.0001 powr (real_of_int (t - 1) / 2) * 2 ^ 96 = 1.0001 powr (- 1 / 2) * x"
    by (simp add: x_def powr_add[symmetric] diff_divide_distrib)
  also have "\<dots> \<le> (1 - 1 / 30000) * x"
    using tick_step big by (intro mult_right_mono) simp_all
  also have "\<dots> \<le> x - 1" using big by (simp add: algebra_simps)
  finally have "1.0001 powr (real_of_int (t - 1) / 2) * 2 ^ 96 \<le> real_of_int s"
    using s_gt by linarith
  then have "1.0001 powr (real_of_int (t - 1) / 2) \<le> real_of_int s / 2 ^ 96"
    by (simp add: pos_le_divide_eq)
  then show "t - 1 \<le> get_tick_at_sqrt_price (get_sqrt_price_at_tick t)"
    using le_get_tick_iff[OF pos, of "t - 1"] by (simp add: s_def)
  have "real_of_int s / 2 ^ 96 \<le> 1.0001 powr (real_of_int t / 2)"
    using s_le by (simp add: x_def pos_divide_le_eq)
  also have "\<dots> < 1.0001 powr (real_of_int (t + 1) / 2)"
    by (intro powr_less_mono) simp_all
  finally have "get_tick_at_sqrt_price s < t + 1"
    using get_tick_less_iff[OF pos, of "t + 1"] by simp
  then show "get_tick_at_sqrt_price (get_sqrt_price_at_tick t) \<le> t"
    by (simp add: s_def)
qed

text \<open>
  C8. For every tick \<open>t\<close> from -887272 to 887272, the tick of the sqrt price of \<open>t\<close>
  differs from \<open>t\<close> by at most 1. In exact arithmetic it is \<open>t\<close> or \<open>t - 1\<close>
  (\<open>round_trip_bounds\<close>): the truncation of the sqrt price to an integer can only lower
  it, and by less than one tick, since the sqrt price of the lowest tick is above 30000.
\<close>

theorem tick_round_trip:
  "- 887272 \<le> t \<Longrightarrow> t \<le> 887272 \<Longrightarrow>
   \<bar>get_tick_at_sqrt_price (get_sqrt_price_at_tick t) - t\<bar> \<le> 1"
  using round_trip_bounds[of t] by linarith

theorem tick_round_trip_witness:
  "- 887272 \<le> (0::int) \<and> (0::int) \<le> 887272 \<and>
   \<bar>get_tick_at_sqrt_price (get_sqrt_price_at_tick 0) - 0\<bar> \<le> 1"
proof -
  have h1: "- 887272 \<le> (0::int)" and h2: "(0::int) \<le> 887272" by simp_all
  from tick_round_trip[OF h1 h2] show ?thesis by simp
qed

section \<open>The price impact of a swap\<close>

subsection \<open>What a swap writes to the sqrt price\<close>





subsection \<open>Truncating the square root of the new price\<close>


subsection \<open>The two directions of a swap that runs\<close>


lemma swap_simple_one_for_zero:
  assumes "0 < a" "0 < liquidity p" "0 \<le> starting_price p * (1 + impact_factor p a)"
  shows "snd (swap_simple p False a) =
           update_tick ((clamp_low_price p)\<lparr>sqrt_price_x96 :=
             py_int (sqrt (starting_price p * (1 + impact_factor p a)) * 2 ^ 96)\<rparr>) False"
    and "\<exists>r. fst (swap_simple p False a) = Returned r"
  using assms by (simp_all add: swap_simple_def Let_def not_less[symmetric])

lemma no_clamp:
  assumes "1 / 10 \<le> descaled_price p"
  shows "starting_price p = descaled_price p" and "clamp_low_price p = p"
  using assms by (simp_all add: starting_price_def clamp_low_price_def descaled_price_def Let_def)

lemma py_int_floor: "0 \<le> x \<Longrightarrow> py_int x = \<lfloor>x\<rfloor>"
  by (simp add: py_int_def)



lemma fresh_pool_fields:
  "tick fresh_pool = 0" "tick_spacing fresh_pool = 60" "liquidity fresh_pool = 0"
  "sqrt_price_x96 fresh_pool = 2 ^ 96" "fee fresh_pool = 3 / 1000"
  "ticks fresh_pool = Map.empty" "positions fresh_pool = Map.empty"
  using get_tick_one by (simp_all add: fresh_pool_def init_def)

lemma crossing_pool_fields:
  "tick crossing_pool = 0" "liquidity crossing_pool = 5"
  "sqrt_price_x96 crossing_pool = 2 ^ 96" "fee crossing_pool = 3 / 1000"
  "ticks crossing_pool = [- 60 \<mapsto> 5, 60 \<mapsto> - 5]"
  by (simp_all add: crossing_pool_def add_position_def Let_def fresh_pool_fields)


subsection \<open>Below the price floor\<close>





section \<open>The direction of a crossing\<close>

text \<open>
  \<open>cross_tick\<close> tells the direction by comparing the tick it is given with
  \<open>self.tick\<close>. \<open>swap_simple\<close> has already set \<open>self.tick\<close> to the new tick (line 213)
  when it calls \<open>cross_tick\<close>, so a tick crossed on the way up is below \<open>self.tick\<close> and
  takes the branch that subtracts, and a tick crossed on the way down is above it and
  takes the branch that adds.
\<close>

lemma cross_tick_below_current:
  "t < tick q \<Longrightarrow> liquidity (cross_tick q t) = max 0 (liquidity q - get0 (ticks q) t)"
  by (simp add: cross_tick_def Let_def)

lemma cross_tick_above_current:
  "tick q < t \<Longrightarrow> liquidity (cross_tick q t) = max 0 (liquidity q + get0 (ticks q) t)"
  by (simp add: cross_tick_def Let_def)

lemma cross_tick_tick: "tick (cross_tick q t) = tick q"
  by (simp add: cross_tick_def Let_def)

lemma update_tick_one_crossing:
  assumes "tick q = 0" and "liquidity q = 5" and "ticks q = [- 60 \<mapsto> 5, 60 \<mapsto> - 5]"
    and "60 < get_tick_at_sqrt_price (sqrt_price_x96 q)"
  shows "liquidity (update_tick q False) = 10"
    and "tick (update_tick q False) = get_tick_at_sqrt_price (sqrt_price_x96 q)"
proof -
  define T where "T = get_tick_at_sqrt_price (sqrt_price_x96 q)"
  have T: "60 < T" using assms(4) by (simp add: T_def)
  have keys: "sorted_list_of_set (dom (ticks q)) = [- 60, 60]"
    by (simp add: assms(3))
  have u: "update_tick q False =
      fold (\<lambda>t r. if 0 \<le> t \<and> t < tick r then cross_tick r t else r) [- 60, 60] (q\<lparr>tick := T\<rparr>)"
    using T by (simp add: update_tick_def Let_def assms(1) keys T_def[symmetric])
  have c: "cross_tick (q\<lparr>tick := T\<rparr>) 60 = q\<lparr>tick := T, liquidity := 10\<rparr>"
    using T by (simp add: cross_tick_def Let_def get0_def assms(2,3))
  have "update_tick q False = q\<lparr>tick := T, liquidity := 10\<rparr>"
    using T by (simp add: u c)
  then show "liquidity (update_tick q False) = 10"
    and "tick (update_tick q False) = get_tick_at_sqrt_price (sqrt_price_x96 q)"
    by (simp_all add: T_def)
qed

lemma tick_after_ten_percent:
  "60 < get_tick_at_sqrt_price \<lfloor>sqrt (11 / 10) * 2 ^ 96\<rfloor>"
proof -
  define S where "S = \<lfloor>sqrt (11 / 10 :: real) * 2 ^ 96\<rfloor>"
  have "sqrt ((104 / 100)\<^sup>2) \<le> sqrt (11 / 10 :: real)"
    by (subst real_sqrt_le_iff) (simp add: power2_eq_square)
  then have a: "104 / 100 \<le> sqrt (11 / 10 :: real)" by simp
  have "sqrt (11 / 10) * 2 ^ 96 - 1 < real_of_int S" unfolding S_def by linarith
  moreover have "104 / 100 * 2 ^ 96 \<le> sqrt (11 / 10 :: real) * 2 ^ 96"
    using a by (intro mult_right_mono) simp_all
  moreover have "(103 / 100 :: real) * 2 ^ 96 \<le> 104 / 100 * 2 ^ 96 - 1" by simp
  ultimately have S: "(103 / 100 :: real) * 2 ^ 96 \<le> real_of_int S" by linarith
  then have pos: "0 < S" by simp
  have q: "(103 / 100 :: real) \<le> real_of_int S / 2 ^ 96"
    using S by (simp only: pos_le_divide_eq zero_less_power zero_less_numeral)
  have "(1.0001 :: real) powr (real_of_int 61 / 2) \<le> 1.0001 powr 31"
    by (intro powr_mono) simp_all
  also have "\<dots> = 1.0001 ^ 31"
    by (rule powr_numeral) simp
  also have "\<dots> \<le> 103 / 100"
    by (simp add: power_divide)
  finally have "(1.0001 :: real) powr (real_of_int 61 / 2) \<le> real_of_int S / 2 ^ 96"
    using q by linarith
  then have "61 \<le> get_tick_at_sqrt_price S"
    by (simp only: le_get_tick_iff[OF pos])
  then show ?thesis by (simp add: S_def)
qed

text \<open>
  C1, evaluated where it fails. The pool is at tick 0 with one position from -60 to 60 of
  liquidity 5, so the delta of tick 60 is -5 and the active liquidity is 5. A purchase of
  token0 moves the price up by 10 percent, past tick 60. The claim has the delta added
  (5 + -5 = 0: the position is left behind); the code subtracts it and the active
  liquidity becomes 10.
\<close>

theorem crossing_up_subtracts:
  "tick crossing_pool = 0 \<and> liquidity crossing_pool = 5 \<and> get0 (ticks crossing_pool) 60 = - 5 \<and>
   60 < tick (snd (swap_simple crossing_pool False 20000000)) \<and>
   liquidity (snd (swap_simple crossing_pool False 20000000)) = 10"
proof -
  have a: "(0::real) < 20000000" by simp
  have liq: "0 < liquidity crossing_pool" by (simp add: crossing_pool_fields)
  have d: "1 / 10 \<le> descaled_price crossing_pool"
    by (simp add: descaled_price_def crossing_pool_fields)
  have i: "impact_factor crossing_pool 20000000 = 1 / 10"
    by (simp add: impact_factor_def Let_def crossing_pool_fields)
  have sp: "starting_price crossing_pool = 1"
    using no_clamp(1)[OF d] by (simp add: descaled_price_def crossing_pool_fields)
  have np: "starting_price crossing_pool * (1 + impact_factor crossing_pool 20000000) = 11 / 10"
    by (simp add: sp i)
  have np0: "0 \<le> starting_price crossing_pool * (1 + impact_factor crossing_pool 20000000)"
    unfolding np by simp
  have nn: "0 \<le> sqrt (11 / 10 :: real) * 2 ^ 96" by simp
  define q where "q = crossing_pool\<lparr>sqrt_price_x96 := \<lfloor>sqrt (11 / 10 :: real) * 2 ^ 96\<rfloor>\<rparr>"
  have s: "snd (swap_simple crossing_pool False 20000000) = update_tick q False"
    unfolding swap_simple_one_for_zero(1)[OF a liq np0] np no_clamp(2)[OF d] py_int_floor[OF nn] q_def ..
  have q1: "tick q = 0" and q2: "liquidity q = 5" and q3: "ticks q = [- 60 \<mapsto> 5, 60 \<mapsto> - 5]"
    by (simp_all add: q_def crossing_pool_fields)
  have q4: "60 < get_tick_at_sqrt_price (sqrt_price_x96 q)"
    using tick_after_ten_percent by (simp add: q_def)
  have r1: "liquidity (update_tick q False) = 10"
    by (rule update_tick_one_crossing(1)[OF q1 q2 q3 q4])
  have r2: "60 < tick (update_tick q False)"
    unfolding update_tick_one_crossing(2)[OF q1 q2 q3 q4] by (rule q4)
  have g: "get0 (ticks crossing_pool) 60 = - 5"
    by (simp add: get0_def crossing_pool_fields)
  show ?thesis
    unfolding s using r1 r2 g by (simp add: crossing_pool_fields)
qed

end
